theory Spec2Isabelle
  imports Complex_Main "HOL-Library.AList" "HOL-Library.Multiset"
begin

section \<open>Alert store: data model\<close>

text \<open>
  The store is the class \<open>UserAlertsState\<close>. Its alerts live in a JavaScript \<open>Map\<close>
  keyed by id. A \<open>Map\<close> iterates in insertion order, \<open>set\<close> on a key that is present
  replaces the value in place and \<open>set\<close> on a new key appends, so the map is an
  association list handled with \<open>AList.update\<close> and \<open>AList.delete\<close>.

  Prices are JavaScript numbers: a finite number (a real here, rounding left out), one
  of the two infinities, or NaN. \<open>numSub\<close> is the subtraction of JavaScript on them,
  \<open>isPositive v\<close> is \<open>v > 0\<close>, and \<open>numGreater\<close> and \<open>numGeq\<close> are \<open>>\<close> and \<open>>=\<close>; every
  comparison with NaN is false.
\<close>

datatype number = NaN | NegInfinity | Fin real | PosInfinity

fun numSub :: "number \<Rightarrow> number \<Rightarrow> number" where
  "numSub NaN y = NaN"
| "numSub x NaN = NaN"
| "numSub (Fin a) (Fin b) = Fin (a - b)"
| "numSub PosInfinity PosInfinity = NaN"
| "numSub NegInfinity NegInfinity = NaN"
| "numSub PosInfinity y = PosInfinity"
| "numSub NegInfinity y = NegInfinity"
| "numSub x PosInfinity = NegInfinity"
| "numSub x NegInfinity = PosInfinity"

fun isPositive :: "number \<Rightarrow> bool" where
  "isPositive (Fin x) = (x > 0)"
| "isPositive PosInfinity = True"
| "isPositive v = False"

definition numGreater :: "number \<Rightarrow> number \<Rightarrow> bool" where
  "numGreater a b = isPositive (numSub a b)"

definition numGeq :: "number \<Rightarrow> number \<Rightarrow> bool" where
  "numGeq a b = (a \<noteq> NaN \<and> b \<noteq> NaN \<and> \<not> numGreater b a)"

datatype AlertCondition =
  Crossing | CrossingUp | CrossingDown | Entering | Exiting | Inside | Outside

datatype AlertType = Price | Tool

datatype PricePosition = Above | Below | Unknown

datatype WebhookMode = Openalgo | Custom

datatype OrderAction = BUY | SELL

datatype OrderProduct = MIS | CNC | NRML

datatype OrderPricetype = MARKET | LIMIT

record AlertNotificationSettings =
  showToast :: bool
  playSound :: bool
  webhookEnabled :: bool
  webhookUrl :: "string option"
  webhookMode :: "WebhookMode option"
  openalgoAction :: "OrderAction option"
  openalgoProduct :: "OrderProduct option"
  openalgoQuantity :: "nat option"
  openalgoPricetype :: "OrderPricetype option"
  message :: "string option"

text \<open>
  \<open>UserAlertInfo\<close>. Every field but \<open>id\<close> and \<open>price\<close> is optional in the source;
  \<open>None\<close> is JavaScript's \<open>undefined\<close>. The tool reference is an opaque handle.
\<close>

record UserAlertInfo =
  alert_id :: string
  price :: number
  condition :: "AlertCondition option"
  alert_type :: "AlertType option"
  toolRef :: "nat option"
  initialPricePosition :: "PricePosition option"
  notifications :: "AlertNotificationSettings option"
  symbol :: "string option"
  exchange :: "string option"

text \<open>
  The values a field of a record handed to \<open>importAlerts\<close> can hold: the function tests
  \<open>typeof price\<close> and the truthiness of \<open>triggered\<close>. NaN has type \<open>number\<close> and is falsy.
\<close>

datatype jsval = JUndefined | JNull | JBool bool | JNum number | JStr string

fun truthy :: "jsval \<Rightarrow> bool" where
  "truthy JUndefined = False"
| "truthy JNull = False"
| "truthy (JBool b) = b"
| "truthy (JNum x) = (x \<noteq> Fin 0 \<and> x \<noteq> NaN)"
| "truthy (JStr s) = (s \<noteq> [])"

fun is_number :: "jsval \<Rightarrow> bool" where
  "is_number (JNum x) = True"
| "is_number v = False"

fun number_of :: "jsval \<Rightarrow> number" where
  "number_of (JNum x) = x"
| "number_of v = NaN"

text \<open>
  \<open>SerializableAlert\<close>, as \<open>exportAlerts\<close> writes it and as \<open>importAlerts\<close> reads it.
  A field that an object lacks reads as \<open>undefined\<close> (\<open>None\<close>, or \<open>JUndefined\<close>).
  \<open>ser_triggered\<close> is the field that \<open>importAlerts\<close> reads through
  \<open>(alertData as any).triggered\<close>. An element of an imported array is such an object
  (\<open>Some r\<close>), or it is \<open>null\<close> or \<open>undefined\<close> (\<open>None\<close>), on which reading a property
  throws a \<open>TypeError\<close>. A primitive element reads like an object without fields.
\<close>

record SerializableAlert =
  ser_id :: "string option"
  ser_price :: jsval
  ser_condition :: "AlertCondition option"
  ser_type :: "AlertType option"
  ser_createdAt :: "int option"
  ser_notifications :: "AlertNotificationSettings option"
  ser_symbol :: "string option"
  ser_exchange :: "string option"
  ser_triggered :: jsval

datatype error = TypeError

text \<open>The four delegates of the store; the log \<open>fired\<close> records every \<open>fire\<close>, in order.\<close>

datatype event =
  AlertAdded UserAlertInfo
| AlertRemoved string
| AlertChanged UserAlertInfo
| AlertsChanged

record UserAlertsState =
  alertsMap :: "(string \<times> UserAlertInfo) list"
  alertsArray :: "UserAlertInfo list"
  subscribed :: bool
  fired :: "event list"

section \<open>Alert store: operations\<close>

definition has :: "(string \<times> UserAlertInfo) list \<Rightarrow> string \<Rightarrow> bool" where
  "has m k = (map_of m k \<noteq> None)"

definition values_of :: "(string \<times> UserAlertInfo) list \<Rightarrow> UserAlertInfo list" where
  "values_of m = map snd m"

text \<open>
  \<open>_updateAlertsArray\<close>: \<open>Array.from(values).sort((a, b) => b.price - a.price)\<close>.
  \<open>comesAfter a b\<close> says that the comparator, called on \<open>a\<close> and \<open>b\<close>, returns a
  positive number, which puts \<open>a\<close> after \<open>b\<close>; a result that is NaN counts as zero.
  \<open>Array.prototype.sort\<close> is stable, and on a consistent comparator every stable sort
  returns the same array: \<open>sortAlerts\<close> is the stable insertion sort. A NaN price makes
  the comparator inconsistent and the order is then the implementation's; like the
  sort of V8, \<open>sortAlerts\<close> returns unchanged an array in which this comparator puts
  no element after its right neighbour (\<open>sortAlerts_unchanged\<close>).

  The array holds the alerts as they were when it was last sorted. In the source it
  holds the objects of the map themselves, so a price changed in place shows in a
  stale array too; an array is stale only once \<open>destroy\<close> has unsubscribed the listener.
\<close>

definition comesAfter :: "UserAlertInfo \<Rightarrow> UserAlertInfo \<Rightarrow> bool" where
  "comesAfter a b = isPositive (numSub (price b) (price a))"

fun insertAlert :: "UserAlertInfo \<Rightarrow> UserAlertInfo list \<Rightarrow> UserAlertInfo list" where
  "insertAlert x [] = [x]"
| "insertAlert x (y # ys) = (if comesAfter x y then y # insertAlert x ys else x # y # ys)"

definition sortAlerts :: "UserAlertInfo list \<Rightarrow> UserAlertInfo list" where
  "sortAlerts xs = foldr insertAlert xs []"

definition updateAlertsArray :: "UserAlertsState \<Rightarrow> UserAlertsState" where
  "updateAlertsArray s = s\<lparr>alertsArray := sortAlerts (values_of (alertsMap s))\<rparr>"

definition fire :: "event \<Rightarrow> UserAlertsState \<Rightarrow> UserAlertsState" where
  "fire e s = s\<lparr>fired := fired s @ [e]\<rparr>"

text \<open>
  \<open>_alertsChanged.fire()\<close> runs the listener that the constructor subscribed, as long as
  \<open>destroy\<close> has not unsubscribed it.
\<close>

definition fireAlertsChanged :: "UserAlertsState \<Rightarrow> UserAlertsState" where
  "fireAlertsChanged s =
     (let s' = fire AlertsChanged s in if subscribed s' then updateAlertsArray s' else s')"

definition constructor :: UserAlertsState where
  "constructor = \<lparr>alertsMap = [], alertsArray = [], subscribed = True, fired = []\<rparr>"

definition destroy :: "UserAlertsState \<Rightarrow> UserAlertsState" where
  "destroy s = s\<lparr>subscribed := False\<rparr>"

definition alerts :: "UserAlertsState \<Rightarrow> UserAlertInfo list" where
  "alerts s = alertsArray s"

text \<open>\<open>Number.prototype.toString(16)\<close> on a natural number.\<close>

definition hexDigit :: "nat \<Rightarrow> char" where
  "hexDigit d = ''0123456789abcdef'' ! d"

function toString16 :: "nat \<Rightarrow> string" where
  "toString16 n = (if n < 16 then [hexDigit n] else toString16 (n div 16) @ [hexDigit (n mod 16)])"
  by pat_completeness auto
termination
  by (relation "measure (\<lambda>n. n)") auto

declare toString16.simps [simp del]

text \<open>
  \<open>_getNewId\<close>. The stream \<open>rnd\<close> holds the successive values of
  \<open>Math.round(Math.random() * 1000000)\<close> and \<open>k\<close> is the position of the next draw.
  The loop ends only when a draw is not a key of the map, so the result is an option:
  \<open>None\<close> is the loop that never ends.
\<close>

partial_function (option) getNewId ::
  "(nat \<Rightarrow> nat) \<Rightarrow> nat \<Rightarrow> (string \<times> UserAlertInfo) list \<Rightarrow> (string \<times> nat) option" where
  "getNewId rnd k m =
     (if has m (toString16 (rnd k)) then getNewId rnd (Suc k) m
      else Some (toString16 (rnd k), Suc k))"

definition newUserAlert :: "string \<Rightarrow> number \<Rightarrow> AlertCondition \<Rightarrow> UserAlertInfo" where
  "newUserAlert i p c =
     \<lparr>alert_id = i, price = p, condition = Some c, alert_type = None, toolRef = None,
      initialPricePosition = None, notifications = None, symbol = None, exchange = None\<rparr>"

text \<open>The result is the new id, the position of the next draw and the new state.\<close>

definition addAlertWithCondition ::
  "(nat \<Rightarrow> nat) \<Rightarrow> nat \<Rightarrow> number \<Rightarrow> AlertCondition \<Rightarrow> UserAlertsState
     \<Rightarrow> (string \<times> nat \<times> UserAlertsState) option" where
  "addAlertWithCondition rnd k p c s =
     (case getNewId rnd k (alertsMap s) of
        None \<Rightarrow> None
      | Some (i, k') \<Rightarrow>
          let userAlert = newUserAlert i p c;
              s1 = s\<lparr>alertsMap := AList.update i userAlert (alertsMap s)\<rparr>;
              s2 = fire (AlertAdded userAlert) s1
          in Some (i, k', fireAlertsChanged s2))"

definition addAlert ::
  "(nat \<Rightarrow> nat) \<Rightarrow> nat \<Rightarrow> number \<Rightarrow> UserAlertsState \<Rightarrow> (string \<times> nat \<times> UserAlertsState) option" where
  "addAlert rnd k p s = addAlertWithCondition rnd k p Crossing s"

definition removeAlert :: "string \<Rightarrow> UserAlertsState \<Rightarrow> UserAlertsState" where
  "removeAlert i s =
     (if \<not> has (alertsMap s) i then s
      else fireAlertsChanged (fire (AlertRemoved i) (s\<lparr>alertsMap := AList.delete i (alertsMap s)\<rparr>)))"

definition updateAlertPrice :: "string \<Rightarrow> number \<Rightarrow> UserAlertsState \<Rightarrow> UserAlertsState" where
  "updateAlertPrice i newPrice s =
     (case map_of (alertsMap s) i of
        None \<Rightarrow> s
      | Some a \<Rightarrow>
          let a' = a\<lparr>price := newPrice\<rparr>
          in fireAlertsChanged (fire (AlertChanged a') (s\<lparr>alertsMap := AList.update i a' (alertsMap s)\<rparr>)))"

definition updateAlert ::
  "string \<Rightarrow> number \<Rightarrow> AlertCondition \<Rightarrow> AlertNotificationSettings option
     \<Rightarrow> UserAlertsState \<Rightarrow> UserAlertsState" where
  "updateAlert i newPrice c n s =
     (case map_of (alertsMap s) i of
        None \<Rightarrow> s
      | Some a \<Rightarrow>
          let a1 = a\<lparr>price := newPrice, condition := Some c\<rparr>;
              a' = (case n of None \<Rightarrow> a1 | Some ns \<Rightarrow> a1\<lparr>notifications := Some ns\<rparr>)
          in fireAlertsChanged (fire (AlertChanged a') (s\<lparr>alertsMap := AList.update i a' (alertsMap s)\<rparr>)))"

text \<open>\<open>x || 'crossing'\<close> on an optional condition.\<close>

definition orCrossing :: "AlertCondition option \<Rightarrow> AlertCondition" where
  "orCrossing c = (case c of None \<Rightarrow> Crossing | Some x \<Rightarrow> x)"

text \<open>
  \<open>exportAlerts\<close>. \<open>serialized t a\<close> is the object literal pushed for the alert \<open>a\<close>
  when \<open>Date.now()\<close> reads \<open>t\<close>. \<open>Date.now()\<close> is read once for every record pushed:
  \<open>clock\<close> holds the successive readings and \<open>k\<close> counts the readings taken so far.
\<close>

definition serialized :: "int \<Rightarrow> UserAlertInfo \<Rightarrow> SerializableAlert" where
  "serialized t a =
     \<lparr>ser_id = Some (alert_id a), ser_price = JNum (price a),
      ser_condition = Some (orCrossing (condition a)), ser_type = Some Price,
      ser_createdAt = Some t, ser_notifications = notifications a,
      ser_symbol = symbol a, ser_exchange = exchange a, ser_triggered = JUndefined\<rparr>"

fun exportFrom ::
  "(nat \<Rightarrow> int) \<Rightarrow> nat \<Rightarrow> (string \<times> UserAlertInfo) list \<Rightarrow> SerializableAlert list" where
  "exportFrom clock k [] = []"
| "exportFrom clock k ((key, a) # rest) =
     (if alert_type a \<noteq> Some Tool
      then serialized (clock k) a # exportFrom clock (Suc k) rest
      else exportFrom clock k rest)"

definition exportAlerts :: "(nat \<Rightarrow> int) \<Rightarrow> UserAlertsState \<Rightarrow> SerializableAlert list" where
  "exportAlerts clock s = exportFrom clock 0 (alertsMap s)"

text \<open>The two \<open>continue\<close> tests of \<open>importAlerts\<close>: a record passes when neither fires.\<close>

definition skipped :: "SerializableAlert \<Rightarrow> bool" where
  "skipped r =
     ((ser_id r = None \<or> ser_id r = Some [] \<or> \<not> is_number (ser_price r))
      \<or> truthy (ser_triggered r))"

definition userAlertOf :: "SerializableAlert \<Rightarrow> UserAlertInfo" where
  "userAlertOf r =
     \<lparr>alert_id = the (ser_id r), price = number_of (ser_price r),
      condition = Some (orCrossing (ser_condition r)), alert_type = Some Price,
      toolRef = None, initialPricePosition = None, notifications = ser_notifications r,
      symbol = ser_symbol r, exchange = ser_exchange r\<rparr>"

text \<open>
  The loop of \<open>importAlerts\<close> changes the map record by record. On an element that is
  \<open>null\<close> or \<open>undefined\<close> the test \<open>!alertData.id\<close> throws: the loop stops with the error
  and with the map as the earlier records have left it.
\<close>

fun importLoop ::
  "SerializableAlert option list \<Rightarrow> (string \<times> UserAlertInfo) list
     \<Rightarrow> error option \<times> (string \<times> UserAlertInfo) list" where
  "importLoop [] m = (None, m)"
| "importLoop (None # es) m = (Some TypeError, m)"
| "importLoop (Some r # es) m =
     (if skipped r then importLoop es m
      else importLoop es (AList.update (the (ser_id r)) (userAlertOf r) m))"

text \<open>
  \<open>importAlerts\<close> returns the error thrown, if any, and the state the store is left in.
  When the loop throws, \<open>alertsChanged\<close> is not fired.
\<close>

definition importAlerts ::
  "SerializableAlert option list \<Rightarrow> UserAlertsState \<Rightarrow> error option \<times> UserAlertsState" where
  "importAlerts es s =
     (case importLoop es (alertsMap s) of
        (Some e, m) \<Rightarrow> (Some e, s\<lparr>alertsMap := m\<rparr>)
      | (None, m) \<Rightarrow>
          (None, let s' = s\<lparr>alertsMap := m\<rparr>
                 in if length es > 0 then fireAlertsChanged s' else s'))"

definition clearAlerts :: "UserAlertsState \<Rightarrow> UserAlertsState" where
  "clearAlerts s =
     (if length (alertsMap s) = 0 then s else fireAlertsChanged (s\<lparr>alertsMap := []\<rparr>))"

text \<open>
  The states the store can be in: the constructor's state, and every state that one of
  the listed operations returns from such a state (for \<open>importAlerts\<close>, when it returns
  without throwing).
\<close>

inductive reachable :: "UserAlertsState \<Rightarrow> bool" where
  r_new: "reachable constructor"
| r_add: "reachable s \<Longrightarrow> addAlertWithCondition rnd k p c s = Some (i, k', s') \<Longrightarrow> reachable s'"
| r_remove: "reachable s \<Longrightarrow> reachable (removeAlert i s)"
| r_price: "reachable s \<Longrightarrow> reachable (updateAlertPrice i p s)"
| r_update: "reachable s \<Longrightarrow> reachable (updateAlert i p c n s)"
| r_import: "reachable s \<Longrightarrow> importAlerts es s = (None, s') \<Longrightarrow> reachable s'"
| r_clear: "reachable s \<Longrightarrow> reachable (clearAlerts s)"

text \<open>
  What the operations maintain on the map: the keys are distinct (it is a \<open>Map\<close>), each
  alert is stored under its own id, no id is the empty string, and every alert carries
  a condition.
\<close>

definition wf_map :: "(string \<times> UserAlertInfo) list \<Rightarrow> bool" where
  "wf_map m =
     (distinct (map fst m) \<and>
      list_all (\<lambda>(k, a). alert_id a = k \<and> k \<noteq> [] \<and> condition a \<noteq> None) m)"

text \<open>The in-memory alert that a round trip through export and import gives back.\<close>

definition restored :: "UserAlertInfo \<Rightarrow> UserAlertInfo" where
  "restored a =
     \<lparr>alert_id = alert_id a, price = price a, condition = condition a,
      alert_type = Some Price, toolRef = None, initialPricePosition = None,
      notifications = notifications a, symbol = symbol a, exchange = exchange a\<rparr>"

definition notTool :: "string \<times> UserAlertInfo \<Rightarrow> bool" where
  "notTool e = (alert_type (snd e) \<noteq> Some Tool)"

section \<open>Trigger evaluator for scalar conditions\<close>

text \<open>
  Modelled from the spec: the trigger evaluator (the source holds only the declaration
  of \<open>initialPricePosition\<close>; the evaluator itself is not part of it). The
  evaluator keeps, for an alert, the last known position of the price relative to the
  threshold. The first evaluation after creation records \<open>initialPricePosition\<close> and
  emits nothing; later a trigger is emitted on a transition between positions that
  matches the condition, and \<open>initialPricePosition\<close> is then forced to \<open>unknown\<close>.
  The spec does not say on which side a price equal to the threshold lies: \<open>tie\<close>
  says whether it is above.
\<close>

definition positionOf :: "bool \<Rightarrow> number \<Rightarrow> number \<Rightarrow> PricePosition" where
  "positionOf tie closePrice threshold =
     (if numGreater closePrice threshold then Above
      else if numGreater threshold closePrice then Below
      else if tie then Above else Below)"

fun transitionMatches :: "AlertCondition \<Rightarrow> PricePosition \<Rightarrow> PricePosition \<Rightarrow> bool" where
  "transitionMatches Crossing before after = (before \<noteq> after)"
| "transitionMatches CrossingUp before after = (before = Below \<and> after = Above)"
| "transitionMatches CrossingDown before after = (before = Above \<and> after = Below)"
| "transitionMatches c before after = False"

record EvaluatedAlert =
  info :: UserAlertInfo
  lastPosition :: "PricePosition option"

definition created :: "UserAlertInfo \<Rightarrow> EvaluatedAlert" where
  "created a = \<lparr>info = a\<lparr>initialPricePosition := None\<rparr>, lastPosition = None\<rparr>"

definition evaluateScalar ::
  "bool \<Rightarrow> number \<Rightarrow> EvaluatedAlert \<Rightarrow> EvaluatedAlert \<times> bool" where
  "evaluateScalar tie closePrice e =
     (let pos = positionOf tie closePrice (price (info e)) in
      case lastPosition e of
        None \<Rightarrow>
          (e\<lparr>info := (info e)\<lparr>initialPricePosition := Some pos\<rparr>, lastPosition := Some pos\<rparr>, False)
      | Some before \<Rightarrow>
          if transitionMatches (orCrossing (condition (info e))) before pos
          then (e\<lparr>info := (info e)\<lparr>initialPricePosition := Some Unknown\<rparr>,
                  lastPosition := Some pos\<rparr>, True)
          else (e\<lparr>lastPosition := Some pos\<rparr>, False))"

section \<open>Notification dispatcher\<close>

text \<open>
  The class \<open>AlertNotification\<close>. DOM elements and timer ids are numbers. The state
  holds the two maps of the class, the children of the container element, the result
  toasts appended to \<open>document.body\<close> and the timers that \<open>setTimeout\<close> has scheduled and
  that have neither fired nor been cleared, each with its due time and its callback.
  Styles, positions and the contents of elements are left out; a played alarm and a
  webhook request in flight are counted only.
\<close>

datatype Direction = Up | Down

record AlertNotificationData =
  alertId :: string
  data_symbol :: string
  data_exchange :: "string option"
  data_price :: string
  numericPrice :: "number option"
  closePrice :: "number option"
  timestamp :: int
  direction :: Direction
  data_condition :: AlertCondition
  notificationSettings :: "AlertNotificationSettings option"

text \<open>
  The four closures handed to \<open>setTimeout\<close>: the auto-dismiss of \<open>show\<close>, the delayed
  removal of \<open>dismiss\<close>, and the fade and the removal of a webhook result toast.
\<close>

datatype callback =
  AutoDismiss string
| RemoveNotification string nat
| FadeResultToast nat
| RemoveResultToast nat

record AlertNotification =
  container :: bool
  containerInBody :: bool
  containerChildren :: "nat list"
  dismissingClass :: "nat list"
  notificationsMap :: "(string \<times> nat) list"
  dismissTimeouts :: "(string \<times> nat) list"
  manager :: bool
  resultToasts :: "(nat \<times> nat) list"
  timers :: "(nat \<times> nat \<times> callback) list"
  now :: nat
  nextNode :: nat
  nextTimer :: nat
  alarmsPlayed :: nat
  webhooksInFlight :: nat

definition newAlertNotification :: AlertNotification where
  "newAlertNotification =
     \<lparr>container = True, containerInBody = True, containerChildren = [], dismissingClass = [],
      notificationsMap = [], dismissTimeouts = [], manager = True, resultToasts = [],
      timers = [], now = 0, nextNode = 0, nextTimer = 1, alarmsPlayed = 0,
      webhooksInFlight = 0\<rparr>"

text \<open>\<open>setTimeout\<close> returns the id \<open>nextTimer s\<close>; ids are positive.\<close>

definition setTimeout :: "callback \<Rightarrow> nat \<Rightarrow> AlertNotification \<Rightarrow> AlertNotification" where
  "setTimeout cb delay s =
     s\<lparr>timers := timers s @ [(nextTimer s, now s + delay, cb)], nextTimer := Suc (nextTimer s)\<rparr>"

definition clearTimeout :: "nat \<Rightarrow> AlertNotification \<Rightarrow> AlertNotification" where
  "clearTimeout t s = s\<lparr>timers := filter (\<lambda>e. fst e \<noteq> t) (timers s)\<rparr>"

definition dismiss :: "string \<Rightarrow> AlertNotification \<Rightarrow> AlertNotification" where
  "dismiss a s =
     (let s1 = (case map_of (dismissTimeouts s) a of
                  None \<Rightarrow> s
                | Some t \<Rightarrow>
                    if t \<noteq> 0
                    then (clearTimeout t s)\<lparr>dismissTimeouts := AList.delete a (dismissTimeouts s)\<rparr>
                    else s)
      in case map_of (notificationsMap s1) a of
           None \<Rightarrow> s1
         | Some n \<Rightarrow>
             setTimeout (RemoveNotification a n) 300
               (s1\<lparr>dismissingClass := dismissingClass s1 @ [n]\<rparr>))"

definition showToastChannel :: "AlertNotificationData \<Rightarrow> AlertNotification \<Rightarrow> AlertNotification" where
  "showToastChannel d s =
     (let s1 = (if map_of (notificationsMap s) (alertId d) \<noteq> None then dismiss (alertId d) s else s);
          n = nextNode s1;
          s2 = s1\<lparr>nextNode := Suc n, containerChildren := containerChildren s1 @ [n],
                  notificationsMap := AList.update (alertId d) n (notificationsMap s1)\<rparr>;
          t = nextTimer s2;
          s3 = setTimeout (AutoDismiss (alertId d)) 60000 s2
      in s3\<lparr>dismissTimeouts := AList.update (alertId d) t (dismissTimeouts s3)\<rparr>)"

definition playAlarm :: "AlertNotification \<Rightarrow> AlertNotification" where
  "playAlarm s = s\<lparr>alarmsPlayed := Suc (alarmsPlayed s)\<rparr>"

definition sendWebhook :: "AlertNotification \<Rightarrow> AlertNotification" where
  "sendWebhook s = s\<lparr>webhooksInFlight := Suc (webhooksInFlight s)\<rparr>"

definition showNotification :: "AlertNotificationData \<Rightarrow> AlertNotification \<Rightarrow> AlertNotification" where
  "showNotification d s =
     (if \<not> container s then s
      else
        let toast = (case notificationSettings d of None \<Rightarrow> True | Some st \<Rightarrow> showToast st);
            sound = (case notificationSettings d of None \<Rightarrow> True | Some st \<Rightarrow> playSound st);
            webhook = (case notificationSettings d of None \<Rightarrow> False | Some st \<Rightarrow> webhookEnabled st);
            s1 = (if toast then showToastChannel d s else s);
            s2 = (if sound then playAlarm s1 else s1)
        in if webhook then sendWebhook s2 else s2)"

text \<open>
  \<open>_showWebhookResultToast\<close>, which \<open>_sendWebhook\<close> calls once the request has settled.
  The toast is stored with the id of its timer, which its close button captures.
\<close>

definition showWebhookResultToast :: "bool \<Rightarrow> string \<Rightarrow> AlertNotification \<Rightarrow> AlertNotification" where
  "showWebhookResultToast success msg s =
     (let n = nextNode s;
          t = nextTimer s;
          s1 = s\<lparr>nextNode := Suc n, resultToasts := resultToasts s @ [(n, t)]\<rparr>
      in setTimeout (FadeResultToast n) 60000 s1)"

definition webhookSettled :: "bool \<Rightarrow> string \<Rightarrow> AlertNotification \<Rightarrow> AlertNotification" where
  "webhookSettled success msg s =
     showWebhookResultToast success msg (s\<lparr>webhooksInFlight := webhooksInFlight s - 1\<rparr>)"

text \<open>The click handler of a result toast's close button.\<close>

definition closeResultToast :: "nat \<Rightarrow> nat \<Rightarrow> AlertNotification \<Rightarrow> AlertNotification" where
  "closeResultToast n t s = setTimeout (RemoveResultToast n) 300 (clearTimeout t s)"

definition runCallback :: "callback \<Rightarrow> AlertNotification \<Rightarrow> AlertNotification" where
  "runCallback cb s =
     (case cb of
        AutoDismiss a \<Rightarrow> dismiss a (s\<lparr>dismissTimeouts := AList.delete a (dismissTimeouts s)\<rparr>)
      | RemoveNotification a n \<Rightarrow>
          s\<lparr>containerChildren := removeAll n (containerChildren s),
            notificationsMap := AList.delete a (notificationsMap s)\<rparr>
      | FadeResultToast n \<Rightarrow> setTimeout (RemoveResultToast n) 300 s
      | RemoveResultToast n \<Rightarrow> s\<lparr>resultToasts := filter (\<lambda>e. fst e \<noteq> n) (resultToasts s)\<rparr>)"

text \<open>Time passes; a pending timer whose due time has come fires and runs its callback.\<close>

definition elapse :: "nat \<Rightarrow> AlertNotification \<Rightarrow> AlertNotification" where
  "elapse ms s = s\<lparr>now := now s + ms\<rparr>"

definition fireTimer :: "nat \<Rightarrow> AlertNotification \<Rightarrow> AlertNotification" where
  "fireTimer t s =
     (case filter (\<lambda>e. fst e = t) (timers s) of
        [] \<Rightarrow> s
      | (t', due, cb) # rest \<Rightarrow>
          if due \<le> now s then runCallback cb (clearTimeout t s) else s)"

definition destroyNotification :: "AlertNotification \<Rightarrow> AlertNotification" where
  "destroyNotification s =
     (let s1 = (fold clearTimeout (map snd (dismissTimeouts s)) s)\<lparr>dismissTimeouts := []\<rparr>;
          s2 = fold dismiss (map fst (notificationsMap s1)) s1
      in s2\<lparr>containerInBody := (if container s2 then False else containerInBody s2),
            container := False, manager := False\<rparr>)"

section \<open>Auxiliary notions for the properties\<close>

text \<open>The array returned by \<open>alerts()\<close> is up to date with the map.\<close>

definition synced :: "UserAlertsState \<Rightarrow> bool" where
  "synced s = (subscribed s \<and> alertsArray s = sortAlerts (values_of (alertsMap s)))"

text \<open>The map that the loop of \<open>importAlerts\<close> leaves when every element is an object.\<close>

abbreviation importedMap ::
  "SerializableAlert list \<Rightarrow> (string \<times> UserAlertInfo) list \<Rightarrow> (string \<times> UserAlertInfo) list" where
  "importedMap rs m \<equiv> snd (importLoop (map Some rs) m)"




text \<open>A persisted price alert, as sample data.\<close>

definition priceRecord :: "string \<Rightarrow> number \<Rightarrow> SerializableAlert" where
  "priceRecord i p =
     \<lparr>ser_id = Some i, ser_price = JNum p, ser_condition = Some CrossingUp,
      ser_type = Some Price, ser_createdAt = Some 0, ser_notifications = None,
      ser_symbol = Some ''NIFTY'', ser_exchange = Some ''NSE'', ser_triggered = JUndefined\<rparr>"

text \<open>A store that holds a price alert and a tool alert, as sample data.\<close>

definition sampleStore :: UserAlertsState where
  "sampleStore =
     \<lparr>alertsMap =
        [(''a1'', \<lparr>alert_id = ''a1'', price = Fin 101, condition = Some CrossingUp,
                  alert_type = Some Price, toolRef = None, initialPricePosition = Some Below,
                  notifications = None, symbol = Some ''NIFTY'', exchange = Some ''NSE''\<rparr>),
         (''t1'', \<lparr>alert_id = ''t1'', price = Fin 250, condition = Some Entering,
                  alert_type = Some Tool, toolRef = Some 7, initialPricePosition = None,
                  notifications = None, symbol = None, exchange = None\<rparr>)],
      alertsArray = [], subscribed = True, fired = []\<rparr>"




text \<open>
  Four alerts imported in the order \<open>a\<close>, \<open>n\<close>, \<open>b\<close>, \<open>c\<close> with prices 1, 2, 5, 3, and
  the alert \<open>n\<close> then saved with the price NaN, which is what the edit dialog passes on
  when its price field does not parse.
\<close>

definition fourAlerts :: UserAlertsState where
  "fourAlerts =
     snd (importAlerts
            (map Some [priceRecord ''a'' (Fin 1), priceRecord ''n'' (Fin 2),
                       priceRecord ''b'' (Fin 5), priceRecord ''c'' (Fin 3)])
            constructor)"

definition nanStore :: UserAlertsState where
  "nanStore = updateAlert ''n'' NaN Crossing None fourAlerts"

text \<open>A trigger event with default notification settings, as sample data.\<close>

definition sampleData :: "string \<Rightarrow> AlertNotificationData" where
  "sampleData a =
     \<lparr>alertId = a, data_symbol = ''NIFTY'', data_exchange = None, data_price = ''100.00'',
      numericPrice = Some (Fin 100), closePrice = Some (Fin 101), timestamp = 0, direction = Up,
      data_condition = CrossingUp, notificationSettings = None\<rparr>"

text \<open>
  A toast is shown for \<open>a1\<close>; one second later a second trigger of \<open>a1\<close> replaces it;
  300 ms later the removal timer of the first toast fires; one second later the user
  closes the toast of \<open>a1\<close>.
\<close>

definition shownOnce :: AlertNotification where
  "shownOnce = showNotification (sampleData ''a1'') newAlertNotification"

definition shownTwice :: AlertNotification where
  "shownTwice = showNotification (sampleData ''a1'') (elapse 1000 shownOnce)"

definition afterAnimation :: AlertNotification where
  "afterAnimation = fireTimer 2 (elapse 300 shownTwice)"

definition afterManualDismiss :: AlertNotification where
  "afterManualDismiss = dismiss ''a1'' (elapse 1000 afterAnimation)"

text \<open>
  Two live notifications and one pending webhook result toast, and the dispatcher
  destroyed in that state.
\<close>

definition beforeDestroy :: AlertNotification where
  "beforeDestroy =
     showWebhookResultToast True ''Order placed''
       (showNotification (sampleData ''a2'') (showNotification (sampleData ''a1'') newAlertNotification))"

definition destroyed :: AlertNotification where
  "destroyed = destroyNotification beforeDestroy"

section \<open>Properties of the alert store\<close>

subsection \<open>Auxiliary lemmas\<close>

lemma toString16_nonempty: "toString16 n \<noteq> []"
  by (subst toString16.simps) simp

lemma getNewId_result:
  assumes "getNewId rnd k m = Some r"
  shows "\<not> has m (fst r) \<and> fst r \<noteq> [] \<and> k < snd r"
proof (rule getNewId.raw_induct
    [where P = "\<lambda>rnd k m r. \<not> has m (fst r) \<and> fst r \<noteq> [] \<and> k < snd r", OF _ assms])
  fix f :: "(nat \<Rightarrow> nat) \<Rightarrow> nat \<Rightarrow> (string \<times> UserAlertInfo) list \<Rightarrow> (string \<times> nat) option"
  fix rnd k m r
  assume IH: "\<And>rnd k m r. f rnd k m = Some r \<Longrightarrow>
     \<not> has m (fst r) \<and> fst r \<noteq> [] \<and> k < snd r"
  assume eq: "(if has m (toString16 (rnd k)) then f rnd (Suc k) m
               else Some (toString16 (rnd k), Suc k)) = Some r"
  show "\<not> has m (fst r) \<and> fst r \<noteq> [] \<and> k < snd r"
  proof (cases "has m (toString16 (rnd k))")
    case True
    with eq have "f rnd (Suc k) m = Some r" by simp
    from IH [OF this] show ?thesis using Suc_lessD by blast
  next
    case False
    with eq have "r = (toString16 (rnd k), Suc k)" by simp
    with False show ?thesis by (simp add: toString16_nonempty)
  qed
qed

lemma getNewId_returns:
  "\<not> has m (toString16 (rnd (k + d))) \<Longrightarrow> \<exists>r. getNewId rnd k m = Some r"
proof (induction d arbitrary: k)
  case 0
  then show ?case by (subst getNewId.simps) simp
next
  case (Suc d)
  from Suc.IH [of "Suc k"] Suc.prems show ?case
    by (subst getNewId.simps) simp
qed

lemma alertsMap_fireAlertsChanged [simp]: "alertsMap (fireAlertsChanged s) = alertsMap s"
  by (simp add: fireAlertsChanged_def fire_def updateAlertsArray_def Let_def)

lemma fired_fireAlertsChanged [simp]: "fired (fireAlertsChanged s) = fired s @ [AlertsChanged]"
  by (simp add: fireAlertsChanged_def fire_def updateAlertsArray_def Let_def)

lemma subscribed_fireAlertsChanged [simp]: "subscribed (fireAlertsChanged s) = subscribed s"
  by (simp add: fireAlertsChanged_def fire_def updateAlertsArray_def Let_def)

lemma alertsArray_fireAlertsChanged:
  "subscribed s \<Longrightarrow>
     alertsArray (fireAlertsChanged s) = sortAlerts (values_of (alertsMap s))"
  by (simp add: fireAlertsChanged_def fire_def updateAlertsArray_def Let_def)

lemma fire_fields [simp]:
  "alertsMap (fire e s) = alertsMap s"
  "subscribed (fire e s) = subscribed s"
  "fired (fire e s) = fired s @ [e]"
  "alertsArray (fire e s) = alertsArray s"
  by (simp_all add: fire_def)

lemma synced_fireAlertsChanged: "subscribed s \<Longrightarrow> synced (fireAlertsChanged s)"
  by (simp add: synced_def alertsArray_fireAlertsChanged)

lemma synced_add:
  "synced s \<Longrightarrow> addAlertWithCondition rnd k p c s = Some (i, k', s') \<Longrightarrow> synced s'"
  by (auto simp: addAlertWithCondition_def Let_def synced_def alertsArray_fireAlertsChanged
           split: option.splits)

lemma synced_remove: "synced s \<Longrightarrow> synced (removeAlert i s)"
  by (simp add: removeAlert_def synced_def alertsArray_fireAlertsChanged)

lemma synced_price: "synced s \<Longrightarrow> synced (updateAlertPrice i p s)"
  by (simp add: updateAlertPrice_def Let_def synced_def alertsArray_fireAlertsChanged
           split: option.splits)

lemma synced_update: "synced s \<Longrightarrow> synced (updateAlert i p c n s)"
  by (simp add: updateAlert_def Let_def synced_def alertsArray_fireAlertsChanged
           split: option.splits)

lemma importLoop_objects: "fst (importLoop (map Some rs) m) = None"
  by (induction rs arbitrary: m) simp_all

lemma importLoop_returned: "importLoop es m = (None, m') \<Longrightarrow> es = map Some (map the es)"
  by (induction es m rule: importLoop.induct) (auto split: if_splits)

lemma importAlerts_objects:
  "importAlerts (map Some rs) s =
     (None, if rs = [] then s\<lparr>alertsMap := importedMap rs (alertsMap s)\<rparr>
            else fireAlertsChanged (s\<lparr>alertsMap := importedMap rs (alertsMap s)\<rparr>))"
proof -
  obtain m where "importLoop (map Some rs) (alertsMap s) = (None, m)"
    using importLoop_objects [of rs "alertsMap s"] by (cases "importLoop (map Some rs) (alertsMap s)") simp
  then show ?thesis
    by (cases rs) (auto simp: importAlerts_def Let_def)
qed

lemma importAlerts_returned:
  assumes "importAlerts es s = (None, s')"
  shows "\<exists>rs. es = map Some rs \<and> s' = snd (importAlerts (map Some rs) s)"
proof -
  from assms obtain m where "importLoop es (alertsMap s) = (None, m)"
    by (cases "importLoop es (alertsMap s)") (auto simp: importAlerts_def split: option.splits)
  then have "es = map Some (map the es)" by (rule importLoop_returned)
  moreover from assms have "s' = snd (importAlerts es s)" by simp
  ultimately show ?thesis by metis
qed

lemma synced_import:
  assumes "synced s" and "importAlerts es s = (None, s')"
  shows "synced s'"
proof -
  from importAlerts_returned [OF assms(2)] obtain rs
    where "s' = snd (importAlerts (map Some rs) s)" by blast
  with assms(1) show ?thesis
    by (simp add: importAlerts_objects synced_def alertsArray_fireAlertsChanged)
qed

lemma synced_clear: "synced s \<Longrightarrow> synced (clearAlerts s)"
  by (simp add: clearAlerts_def synced_def alertsArray_fireAlertsChanged)

lemma synced_constructor: "synced constructor"
  by (simp add: synced_def constructor_def values_of_def sortAlerts_def)

lemma reachable_synced: "reachable s \<Longrightarrow> synced s"
  by (induction rule: reachable.induct)
     (auto intro: synced_constructor synced_add synced_remove synced_price synced_update
        synced_import synced_clear)

lemma list_all_update: "list_all P m \<Longrightarrow> P (k, v) \<Longrightarrow> list_all P (AList.update k v m)"
  by (induction m) auto

lemma list_all_delete: "list_all P m \<Longrightarrow> list_all P (AList.delete k m)"
  by (induction m) auto

lemma wf_map_update:
  "wf_map m \<Longrightarrow> alert_id a = k \<Longrightarrow> k \<noteq> [] \<Longrightarrow> condition a \<noteq> None
     \<Longrightarrow> wf_map (AList.update k a m)"
  by (simp add: wf_map_def distinct_update list_all_update)

lemma wf_map_delete: "wf_map m \<Longrightarrow> wf_map (AList.delete k m)"
  by (simp add: wf_map_def distinct_delete list_all_delete)

lemma wf_map_lookup:
  "wf_map m \<Longrightarrow> map_of m k = Some a \<Longrightarrow> alert_id a = k \<and> k \<noteq> [] \<and> condition a \<noteq> None"
  by (auto simp: wf_map_def list_all_iff dest: map_of_SomeD)

lemma wf_map_importLoop: "wf_map m \<Longrightarrow> wf_map (importedMap rs m)"
proof (induction rs arbitrary: m)
  case Nil
  then show ?case by simp
next
  case (Cons r rs)
  show ?case
  proof (cases "skipped r")
    case True
    with Cons show ?thesis by simp
  next
    case False
    then have "the (ser_id r) \<noteq> []"
      by (auto simp: skipped_def)
    with Cons.prems have "wf_map (AList.update (the (ser_id r)) (userAlertOf r) m)"
      by (intro wf_map_update) (simp_all add: userAlertOf_def)
    with False Cons.IH show ?thesis by simp
  qed
qed

lemma wf_map_add:
  assumes "wf_map (alertsMap s)" and "addAlertWithCondition rnd k p c s = Some (i, k', s')"
  shows "wf_map (alertsMap s')"
proof -
  from assms(2) obtain r where g: "getNewId rnd k (alertsMap s) = Some r" and i: "i = fst r"
    and s': "alertsMap s' = AList.update i (newUserAlert i p c) (alertsMap s)"
    by (auto simp: addAlertWithCondition_def Let_def split: option.splits)
  from getNewId_result [OF g] i have "i \<noteq> []" by simp
  with assms(1) show ?thesis
    unfolding s' by (intro wf_map_update) (simp_all add: newUserAlert_def)
qed

lemma wf_map_remove: "wf_map (alertsMap s) \<Longrightarrow> wf_map (alertsMap (removeAlert i s))"
  by (simp add: removeAlert_def wf_map_delete)

lemma wf_map_price: "wf_map (alertsMap s) \<Longrightarrow> wf_map (alertsMap (updateAlertPrice i p s))"
  by (auto simp: updateAlertPrice_def Let_def split: option.splits
           dest: wf_map_lookup intro!: wf_map_update)

lemma wf_map_updateAlert: "wf_map (alertsMap s) \<Longrightarrow> wf_map (alertsMap (updateAlert i p c n s))"
  by (auto simp: updateAlert_def Let_def split: option.splits
           dest: wf_map_lookup intro!: wf_map_update)

lemma wf_map_import:
  assumes "wf_map (alertsMap s)" and "importAlerts es s = (None, s')"
  shows "wf_map (alertsMap s')"
proof -
  from importAlerts_returned [OF assms(2)] obtain rs
    where "s' = snd (importAlerts (map Some rs) s)" by blast
  with assms(1) show ?thesis
    by (simp add: importAlerts_objects wf_map_importLoop)
qed

lemma wf_map_clear: "wf_map (alertsMap s) \<Longrightarrow> wf_map (alertsMap (clearAlerts s))"
  by (simp add: clearAlerts_def wf_map_def)

lemma reachable_wf: "reachable s \<Longrightarrow> wf_map (alertsMap s)"
proof (induction rule: reachable.induct)
  case r_new
  show ?case by (simp add: constructor_def wf_map_def)
qed (auto intro: wf_map_add wf_map_remove wf_map_price wf_map_updateAlert wf_map_import
      wf_map_clear)

lemma wf_map_ids: "wf_map m \<Longrightarrow> map alert_id (values_of m) = map fst m"
  by (induction m) (auto simp: wf_map_def values_of_def)

lemma has_keys: "has m k \<longleftrightarrow> k \<in> set (map fst m)"
  by (simp add: has_def map_of_eq_None_iff)

lemma toString16_500000: "toString16 500000 = ''7a120''"
  by (simp add: toString16.simps hexDigit_def)

lemma toString16_11: "toString16 11 = ''b''"
  by (simp add: toString16.simps hexDigit_def)

lemma alertsMap_import_one:
  "alertsMap (snd (importAlerts [Some (priceRecord i p)] constructor)) =
     (if i = [] then [] else [(i, userAlertOf (priceRecord i p))])"
  by (simp add: importAlerts_def Let_def constructor_def skipped_def priceRecord_def)

lemma update_fresh: "k \<notin> fst ` set m \<Longrightarrow> AList.update k v m = m @ [(k, v)]"
  by (induction m) auto

lemma notTool_pair: "notTool (k, a) \<longleftrightarrow> alert_type a \<noteq> Some Tool"
  by (simp add: notTool_def)

lemma serialized_not_skipped: "alert_id a \<noteq> [] \<Longrightarrow> \<not> skipped (serialized t a)"
  by (simp add: skipped_def serialized_def)

lemma userAlertOf_serialized: "condition a \<noteq> None \<Longrightarrow> userAlertOf (serialized t a) = restored a"
  by (auto simp: userAlertOf_def restored_def orCrossing_def serialized_def)

lemma ser_id_serialized: "ser_id (serialized t a) = Some (alert_id a)"
  by (simp add: serialized_def)

lemma importLoop_exportFrom:
  "wf_map m \<Longrightarrow> fst ` set acc \<inter> fst ` set m = {} \<Longrightarrow>
     importedMap (exportFrom clock k m) acc =
       acc @ map (\<lambda>e. (fst e, restored (snd e))) (filter notTool m)"
proof (induction m arbitrary: k acc)
  case Nil
  then show ?case by simp
next
  case (Cons e m)
  obtain key a where e: "e = (key, a)" by (cases e)
  from Cons.prems(1) e have wf: "wf_map m" and ida: "alert_id a = key" and ne: "key \<noteq> []"
    and c: "condition a \<noteq> None" and fresh: "key \<notin> fst ` set m"
    by (auto simp: wf_map_def)
  from Cons.prems(2) e have kacc: "key \<notin> fst ` set acc" and dis: "fst ` set acc \<inter> fst ` set m = {}"
    by auto
  show ?case
  proof (cases "alert_type a = Some Tool")
    case True
    with Cons.IH [OF wf dis] e show ?thesis by (simp add: notTool_pair)
  next
    case False
    have ns: "\<not> skipped (serialized (clock k) a)"
      using ida ne by (simp add: serialized_not_skipped)
    have dis': "fst ` set (acc @ [(key, restored a)]) \<inter> fst ` set m = {}"
      using dis fresh by auto
    have "importedMap (exportFrom clock k (e # m)) acc =
            importedMap (exportFrom clock (Suc k) m) (AList.update key (restored a) acc)"
      using False ns ida e c by (simp add: userAlertOf_serialized ser_id_serialized)
    also have "\<dots> = importedMap (exportFrom clock (Suc k) m) (acc @ [(key, restored a)])"
      using kacc by (simp add: update_fresh)
    also have "\<dots> = (acc @ [(key, restored a)]) @ map (\<lambda>e. (fst e, restored (snd e))) (filter notTool m)"
      by (rule Cons.IH [OF wf dis'])
    finally show ?thesis using False e by (simp add: notTool_pair)
  qed
qed

lemma exportFrom_ids:
  "map ser_id (exportFrom clock k m) = map (\<lambda>e. Some (alert_id (snd e))) (filter notTool m)"
  by (induction m arbitrary: k) (auto simp: notTool_pair ser_id_serialized)

lemma exportFrom_type:
  "list_all (\<lambda>r. ser_type r = Some Price) (exportFrom clock k m)"
  by (induction m arbitrary: k) (auto simp: serialized_def)

lemma upt_0_Suc: "[0..<Suc n] = 0 # map Suc [0..<n]"
  by (simp add: upt_conv_Cons map_Suc_upt del: upt_Suc)

lemma exportFrom_createdAt:
  "map ser_createdAt (exportFrom clock k m) =
     map (\<lambda>j. Some (clock (k + j))) [0..<length (exportFrom clock k m)]"
proof (induction m arbitrary: k)
  case Nil
  then show ?case by simp
next
  case (Cons e m)
  obtain key a where e: "e = (key, a)" by (cases e)
  show ?case
  proof (cases "alert_type a = Some Tool")
    case True
    with Cons.IH [of k] e show ?thesis by simp
  next
    case False
    have "map ser_createdAt (exportFrom clock k (e # m)) =
            Some (clock k) # map ser_createdAt (exportFrom clock (Suc k) m)"
      using False e by (simp add: serialized_def)
    also have "\<dots> = Some (clock k) #
        map (\<lambda>j. Some (clock (Suc k + j))) [0..<length (exportFrom clock (Suc k) m)]"
      by (simp only: Cons.IH [of "Suc k"])
    also have "\<dots> = map (\<lambda>j. Some (clock (k + j))) [0..<Suc (length (exportFrom clock (Suc k) m))]"
      by (simp only: upt_0_Suc) (simp add: o_def)
    also have "Suc (length (exportFrom clock (Suc k) m)) = length (exportFrom clock k (e # m))"
      using False e by simp
    finally show ?thesis .
  qed
qed







lemma set_insertAlert: "set (insertAlert x ys) = insert x (set ys)"
  by (induction ys) auto

lemma mset_insertAlert: "mset (insertAlert x ys) = add_mset x (mset ys)"
  by (induction ys) auto

lemma mset_sortAlerts: "mset (sortAlerts xs) = mset xs"
  by (induction xs) (simp_all add: sortAlerts_def mset_insertAlert)

lemma sortAlerts_unchanged:
  "successively (\<lambda>x y. \<not> comesAfter x y) xs \<Longrightarrow> sortAlerts xs = xs"
proof (induction xs)
  case Nil
  then show ?case by (simp add: sortAlerts_def)
next
  case (Cons x xs)
  then have "sortAlerts xs = xs"
    by (cases xs) simp_all
  then have "sortAlerts (x # xs) = insertAlert x xs"
    by (simp add: sortAlerts_def)
  with Cons.prems show ?case
    by (cases xs) simp_all
qed

lemma numGeq_trans: "numGeq a b \<Longrightarrow> numGeq b c \<Longrightarrow> numGeq a c"
  by (cases a; cases b; cases c) (simp_all add: numGeq_def numGreater_def)

lemma numGreater_numGeq: "numGreater a b \<Longrightarrow> numGeq a b"
  by (cases a; cases b) (simp_all add: numGeq_def numGreater_def)

lemma not_comesAfter_numGeq:
  "price x \<noteq> NaN \<Longrightarrow> price y \<noteq> NaN \<Longrightarrow> \<not> comesAfter x y \<Longrightarrow> numGeq (price x) (price y)"
  by (simp add: comesAfter_def numGeq_def numGreater_def)

lemma comesAfter_numGeq: "comesAfter x y \<Longrightarrow> numGeq (price y) (price x)"
  by (simp add: comesAfter_def numGreater_numGeq numGreater_def)

lemma sorted_insertAlert:
  assumes "price x \<noteq> NaN" and "\<forall>y \<in> set ys. price y \<noteq> NaN"
    and "sorted_wrt (\<lambda>a b. numGeq (price a) (price b)) ys"
  shows "sorted_wrt (\<lambda>a b. numGeq (price a) (price b)) (insertAlert x ys)"
  using assms
proof (induction ys)
  case Nil
  then show ?case by simp
next
  case (Cons y ys)
  show ?case
  proof (cases "comesAfter x y")
    case True
    from Cons have "sorted_wrt (\<lambda>a b. numGeq (price a) (price b)) (insertAlert x ys)"
      by simp
    moreover from True have "numGeq (price y) (price x)"
      by (rule comesAfter_numGeq)
    ultimately show ?thesis
      using True Cons.prems(3) by (auto simp: set_insertAlert)
  next
    case False
    with Cons.prems have xy: "numGeq (price x) (price y)"
      by (intro not_comesAfter_numGeq) simp_all
    have "numGeq (price x) (price z)" if "z \<in> set ys" for z
      using xy Cons.prems(3) that by (auto intro: numGeq_trans)
    with False xy Cons.prems(3) show ?thesis by auto
  qed
qed

lemma sorted_sortAlerts:
  "\<forall>y \<in> set xs. price y \<noteq> NaN \<Longrightarrow>
     sorted_wrt (\<lambda>a b. numGeq (price a) (price b)) (sortAlerts xs)"
proof (induction xs)
  case Nil
  then show ?case by (simp add: sortAlerts_def)
next
  case (Cons x xs)
  then have "sorted_wrt (\<lambda>a b. numGeq (price a) (price b)) (sortAlerts xs)"
    by simp
  moreover have "\<forall>y \<in> set (sortAlerts xs). price y \<noteq> NaN"
    using Cons.prems mset_sortAlerts [of xs] by (metis list.set_intros(2) set_mset_mset)
  ultimately have "sorted_wrt (\<lambda>a b. numGeq (price a) (price b)) (insertAlert x (sortAlerts xs))"
    using Cons.prems by (intro sorted_insertAlert) simp_all
  then show ?case by (simp add: sortAlerts_def)
qed

text \<open>
  What does hold of \<open>alerts()\<close>: in every reachable state it holds exactly the alerts of
  the map, and it is sorted by price in descending order when no price is NaN.
\<close>

lemma alerts_sorted_without_NaN:
  assumes "reachable s"
  shows "mset (alerts s) = mset (values_of (alertsMap s))"
    and "\<forall>a \<in> set (values_of (alertsMap s)). price a \<noteq> NaN \<Longrightarrow>
           sorted_wrt (\<lambda>a b. numGeq (price a) (price b)) (alerts s)"
proof -
  from assms have eq: "alerts s = sortAlerts (values_of (alertsMap s))"
    using reachable_synced by (simp add: synced_def alerts_def)
  show "mset (alerts s) = mset (values_of (alertsMap s))"
    unfolding eq by (rule mset_sortAlerts)
  show "sorted_wrt (\<lambda>a b. numGeq (price a) (price b)) (alerts s)"
    if "\<forall>a \<in> set (values_of (alertsMap s)). price a \<noteq> NaN"
    unfolding eq using that by (rule sorted_sortAlerts)
qed

lemma alertsMap_importAlerts_objects:
  "alertsMap (snd (importAlerts (map Some rs) s)) = importedMap rs (alertsMap s)"
  by (simp add: importAlerts_objects)

lemma fst_importAlerts_objects: "fst (importAlerts (map Some rs) s) = None"
  by (simp add: importAlerts_objects)

lemma importAlerts_objects_pair:
  "importAlerts (map Some rs) s = (None, snd (importAlerts (map Some rs) s))"
  by (simp add: importAlerts_objects)

lemma reachable_import_objects:
  "reachable s \<Longrightarrow> reachable (snd (importAlerts (map Some rs) s))"
  by (rule r_import [OF _ importAlerts_objects_pair])

lemma fired_import_one:
  "fired (snd (importAlerts [Some r] constructor)) = [AlertsChanged]"
  using importAlerts_objects [of "[r]" constructor] by (simp add: constructor_def)

subsection \<open>The claims about the store\<close>

text \<open>
  C1. Take a store whose map is well formed (distinct keys, each alert under its own
  non-empty id and carrying a condition; every reachable state is so, see
  \<open>reachable_wf\<close>), whatever the kinds of its alerts. Importing what \<open>exportAlerts\<close>
  returns into a new, empty store does not throw and gives a map that holds, in the same order, exactly
  the alerts that are not tool alerts, each with its id, price, condition,
  notifications, symbol and exchange unchanged and with type \<open>price\<close>. The exported
  sequence carries the ids of the alerts that are not tool alerts and no others, and
  every exported record has type \<open>price\<close>.
\<close>

theorem export_import_round_trip:
  "wf_map (alertsMap s) \<Longrightarrow>
     fst (importAlerts (map Some (exportAlerts clock s)) constructor) = None \<and>
     alertsMap (snd (importAlerts (map Some (exportAlerts clock s)) constructor)) =
       map (\<lambda>e. (fst e, restored (snd e))) (filter notTool (alertsMap s)) \<and>
     map ser_id (exportAlerts clock s) =
       map (\<lambda>e. Some (alert_id (snd e))) (filter notTool (alertsMap s)) \<and>
     list_all (\<lambda>r. ser_type r = Some Price) (exportAlerts clock s)"
proof -
  assume wf: "wf_map (alertsMap s)"
  have "importedMap (exportFrom clock 0 (alertsMap s)) [] =
          [] @ map (\<lambda>e. (fst e, restored (snd e))) (filter notTool (alertsMap s))"
    by (rule importLoop_exportFrom [OF wf]) simp
  then have "alertsMap (snd (importAlerts (map Some (exportAlerts clock s)) constructor)) =
       map (\<lambda>e. (fst e, restored (snd e))) (filter notTool (alertsMap s))"
    by (simp add: alertsMap_importAlerts_objects exportAlerts_def constructor_def)
  moreover have "fst (importAlerts (map Some (exportAlerts clock s)) constructor) = None"
    by (rule fst_importAlerts_objects)
  ultimately show ?thesis
    by (simp add: exportAlerts_def exportFrom_ids exportFrom_type)
qed

theorem export_import_round_trip_witness:
  "wf_map (alertsMap sampleStore) \<and>
   fst (importAlerts (map Some (exportAlerts (\<lambda>k. 1000) sampleStore)) constructor) = None \<and>
   alertsMap (snd (importAlerts (map Some (exportAlerts (\<lambda>k. 1000) sampleStore)) constructor)) =
     [(''a1'', \<lparr>alert_id = ''a1'', price = Fin 101, condition = Some CrossingUp,
               alert_type = Some Price, toolRef = None, initialPricePosition = None,
               notifications = None, symbol = Some ''NIFTY'', exchange = Some ''NSE''\<rparr>)] \<and>
   map ser_id (exportAlerts (\<lambda>k. 1000) sampleStore) = [Some ''a1''] \<and>
   list_all (\<lambda>r. ser_type r = Some Price) (exportAlerts (\<lambda>k. 1000) sampleStore)"
proof -
  have wf: "wf_map (alertsMap sampleStore)"
    by (simp add: wf_map_def sampleStore_def)
  from export_import_round_trip [OF wf, of "\<lambda>k. 1000"] wf show ?thesis
    by (simp add: sampleStore_def notTool_def restored_def)
qed




text \<open>
  C4. The store takes any number as a price, NaN too: \<open>updateAlert\<close> and the other
  operations do not look at it. The four alerts \<open>a\<close>, \<open>n\<close>, \<open>b\<close>, \<open>c\<close> with prices 1, 2,
  5, 3 are returned by \<open>alerts()\<close> in descending order. Once \<open>n\<close> has been saved with
  the price NaN, the comparator returns NaN for every pair that holds \<open>n\<close>, and
  \<open>alerts()\<close> returns the alerts in the order of the map, 1 before 5: the sequence is
  not sorted by price in descending order. It still holds exactly the alerts of the
  map, and it is sorted whenever no price is NaN (\<open>alerts_sorted_without_NaN\<close>).
\<close>

theorem alerts_unsorted_after_NaN_price:
  "reachable nanStore \<and>
   map price (alerts fourAlerts) = [Fin 5, Fin 3, Fin 2, Fin 1] \<and>
   map alert_id (alerts nanStore) = [''a'', ''n'', ''b'', ''c''] \<and>
   map price (alerts nanStore) = [Fin 1, NaN, Fin 5, Fin 3] \<and>
   \<not> sorted_wrt (\<lambda>a b. numGeq (price a) (price b)) (alerts nanStore)"
proof -
  have "reachable fourAlerts"
    unfolding fourAlerts_def by (rule reachable_import_objects [OF r_new])
  then have r: "reachable nanStore"
    unfolding nanStore_def by (rule r_update)
  have m: "alertsMap fourAlerts =
     [(''a'', userAlertOf (priceRecord ''a'' (Fin 1))), (''n'', userAlertOf (priceRecord ''n'' (Fin 2))),
      (''b'', userAlertOf (priceRecord ''b'' (Fin 5))), (''c'', userAlertOf (priceRecord ''c'' (Fin 3)))]"
    by (simp add: fourAlerts_def importAlerts_def Let_def constructor_def skipped_def priceRecord_def)
  have 4: "map price (alerts fourAlerts) = [Fin 5, Fin 3, Fin 2, Fin 1]"
    using reachable_synced [OF \<open>reachable fourAlerts\<close>]
    by (simp add: synced_def alerts_def m values_of_def sortAlerts_def comesAfter_def
        userAlertOf_def priceRecord_def)
  have a: "alerts nanStore =
     [userAlertOf (priceRecord ''a'' (Fin 1)),
      (userAlertOf (priceRecord ''n'' (Fin 2)))\<lparr>price := NaN, condition := Some Crossing\<rparr>,
      userAlertOf (priceRecord ''b'' (Fin 5)), userAlertOf (priceRecord ''c'' (Fin 3))]"
    using reachable_synced [OF r]
    by (simp add: synced_def alerts_def nanStore_def updateAlert_def Let_def m values_of_def
        sortAlerts_def comesAfter_def userAlertOf_def priceRecord_def)
  from r 4 show ?thesis
    unfolding a by (simp add: userAlertOf_def priceRecord_def numGeq_def numGreater_def)
qed

text \<open>
  C5, as stated, asks \<open>importAlerts\<close> to fire \<open>alertAdded\<close> for every alert it adds
  and \<open>clearAlerts\<close> to fire \<open>alertRemoved\<close> for every alert it removes. They do not:
  importing one record into a new store adds the alert and fires \<open>alertsChanged\<close> only,
  and clearing that store removes the alert and fires \<open>alertsChanged\<close> only.
\<close>

theorem batch_operations_fire_no_individual_event:
  "has (alertsMap (snd (importAlerts [Some (priceRecord ''a'' (Fin 1))] constructor))) ''a'' \<and>
   fired (snd (importAlerts [Some (priceRecord ''a'' (Fin 1))] constructor)) = [AlertsChanged] \<and>
   alertsMap (clearAlerts (snd (importAlerts [Some (priceRecord ''a'' (Fin 1))] constructor))) = [] \<and>
   fired (clearAlerts (snd (importAlerts [Some (priceRecord ''a'' (Fin 1))] constructor))) =
     [AlertsChanged, AlertsChanged]"
  by (simp add: importAlerts_def clearAlerts_def Let_def constructor_def skipped_def
      priceRecord_def has_def)

text \<open>
  C5, amended. \<open>addAlertWithCondition\<close> fires \<open>alertAdded\<close> with the new alert and then
  \<open>alertsChanged\<close>; \<open>removeAlert\<close> of an id that is present fires \<open>alertRemoved\<close> with
  the id and then \<open>alertsChanged\<close>; \<open>updateAlertPrice\<close> and \<open>updateAlert\<close> of an id
  that is present fire \<open>alertChanged\<close> with the updated alert and then
  \<open>alertsChanged\<close>. The batch operations fire no individual event: \<open>importAlerts\<close>,
  on an array of records, fires \<open>alertsChanged\<close> once when the array is not empty and
  nothing otherwise, and
  \<open>clearAlerts\<close> fires \<open>alertsChanged\<close> once when the store is not empty and nothing
  otherwise.
\<close>

theorem operations_fire_events:
  "(addAlertWithCondition rnd k p c s = Some (i, k', s') \<longrightarrow>
      fired s' = fired s @ [AlertAdded (newUserAlert i p c), AlertsChanged]) \<and>
   (has (alertsMap s) i \<longrightarrow>
      fired (removeAlert i s) = fired s @ [AlertRemoved i, AlertsChanged]) \<and>
   (map_of (alertsMap s) i = Some a \<longrightarrow>
      fired (updateAlertPrice i p s) = fired s @ [AlertChanged (a\<lparr>price := p\<rparr>), AlertsChanged]) \<and>
   (map_of (alertsMap s) i = Some a \<longrightarrow>
      fired (updateAlert i p c n s) =
        fired s @ [AlertChanged (case n of None \<Rightarrow> a\<lparr>price := p, condition := Some c\<rparr>
                                 | Some ns \<Rightarrow> a\<lparr>price := p, condition := Some c,
                                               notifications := Some ns\<rparr>), AlertsChanged]) \<and>
   fired (snd (importAlerts (map Some rs) s)) =
     fired s @ (if rs = [] then [] else [AlertsChanged]) \<and>
   fired (clearAlerts s) = fired s @ (if alertsMap s = [] then [] else [AlertsChanged])"
proof -
  have 1: "fired s' = fired s @ [AlertAdded (newUserAlert i p c), AlertsChanged]"
    if "addAlertWithCondition rnd k p c s = Some (i, k', s')"
    using that by (auto simp: addAlertWithCondition_def Let_def split: option.splits)
  have 2: "fired (removeAlert i s) = fired s @ [AlertRemoved i, AlertsChanged]"
    if "has (alertsMap s) i"
    using that by (simp add: removeAlert_def)
  have 3: "fired (updateAlertPrice i p s) = fired s @ [AlertChanged (a\<lparr>price := p\<rparr>), AlertsChanged]"
    if "map_of (alertsMap s) i = Some a"
    using that by (simp add: updateAlertPrice_def Let_def)
  have 4: "fired (updateAlert i p c n s) =
        fired s @ [AlertChanged (case n of None \<Rightarrow> a\<lparr>price := p, condition := Some c\<rparr>
                                 | Some ns \<Rightarrow> a\<lparr>price := p, condition := Some c,
                                               notifications := Some ns\<rparr>), AlertsChanged]"
    if "map_of (alertsMap s) i = Some a"
    using that by (simp add: updateAlert_def Let_def split: option.splits)
  have 5: "fired (snd (importAlerts (map Some rs) s)) =
     fired s @ (if rs = [] then [] else [AlertsChanged])"
    by (simp add: importAlerts_objects)
  have 6: "fired (clearAlerts s) = fired s @ (if alertsMap s = [] then [] else [AlertsChanged])"
    by (simp add: clearAlerts_def)
  from 1 2 3 4 5 6 show ?thesis by blast
qed

theorem operations_fire_events_witness:
  "has (alertsMap (snd (importAlerts [Some (priceRecord ''7a120'' (Fin 5))] constructor))) ''7a120'' \<and>
   fired (removeAlert ''7a120'' (snd (importAlerts [Some (priceRecord ''7a120'' (Fin 5))] constructor))) =
     [AlertsChanged, AlertRemoved ''7a120'', AlertsChanged] \<and>
   map_of (alertsMap (snd (importAlerts [Some (priceRecord ''7a120'' (Fin 5))] constructor))) ''7a120'' =
     Some (userAlertOf (priceRecord ''7a120'' (Fin 5))) \<and>
   fired (updateAlertPrice ''7a120'' (Fin 9) (snd (importAlerts [Some (priceRecord ''7a120'' (Fin 5))] constructor))) =
     [AlertsChanged, AlertChanged ((userAlertOf (priceRecord ''7a120'' (Fin 5)))\<lparr>price := Fin 9\<rparr>),
      AlertsChanged] \<and>
   fired (updateAlert ''7a120'' (Fin 9) Crossing None (snd (importAlerts [Some (priceRecord ''7a120'' (Fin 5))] constructor))) =
     [AlertsChanged,
      AlertChanged ((userAlertOf (priceRecord ''7a120'' (Fin 5)))\<lparr>price := Fin 9, condition := Some Crossing\<rparr>),
      AlertsChanged] \<and>
   (\<exists>s'. addAlertWithCondition (\<lambda>k. if k = 0 then 500000 else 11) 0 (Fin 10) Crossing
            (snd (importAlerts [Some (priceRecord ''7a120'' (Fin 5))] constructor)) = Some (''b'', 2, s') \<and>
         fired s' = [AlertsChanged, AlertAdded (newUserAlert ''b'' (Fin 10) Crossing), AlertsChanged])"
proof -
  let ?s = "snd (importAlerts [Some (priceRecord ''7a120'' (Fin 5))] constructor)"
  let ?rnd = "\<lambda>k::nat. if k = 0 then 500000 else (11::nat)"
  let ?a = "userAlertOf (priceRecord ''7a120'' (Fin 5))"
  have f: "fired ?s = [AlertsChanged]"
    by (rule fired_import_one)
  have l: "map_of (alertsMap ?s) ''7a120'' = Some ?a"
    by (simp add: alertsMap_import_one)
  then have h: "has (alertsMap ?s) ''7a120''"
    by (simp add: has_def)
  have g: "getNewId ?rnd 0 (alertsMap ?s) = Some (''b'', 2)"
    by (simp add: getNewId.simps alertsMap_import_one has_def toString16_500000 toString16_11)
  then obtain s' where a: "addAlertWithCondition ?rnd 0 (Fin 10) Crossing ?s = Some (''b'', 2, s')"
    by (simp add: addAlertWithCondition_def Let_def)
  from operations_fire_events [where rnd = ?rnd and k = 0 and p = "Fin 10" and c = Crossing and s = ?s and i = "''b''"
        and k' = 2 and s' = s'] a
  have 1: "fired s' = fired ?s @ [AlertAdded (newUserAlert ''b'' (Fin 10) Crossing), AlertsChanged]"
    by simp
  from operations_fire_events [where s = ?s and i = "''7a120''" and a = ?a and p = "Fin 9" and c = Crossing and n = None]
       h l
  have "fired (removeAlert ''7a120'' ?s) = fired ?s @ [AlertRemoved ''7a120'', AlertsChanged]"
    and "fired (updateAlertPrice ''7a120'' (Fin 9) ?s) =
           fired ?s @ [AlertChanged (?a\<lparr>price := Fin 9\<rparr>), AlertsChanged]"
    and "fired (updateAlert ''7a120'' (Fin 9) Crossing None ?s) =
           fired ?s @ [AlertChanged (?a\<lparr>price := Fin 9, condition := Some Crossing\<rparr>), AlertsChanged]"
    by simp_all
  with 1 a h l show ?thesis by (simp add: f)
qed

text \<open>
  C6. \<open>_getNewId\<close> draws candidates until one is not a key of the map. In every
  reachable state the alerts have pairwise distinct ids; an id that
  \<open>addAlertWithCondition\<close> returns is the id of no alert present before the call and is
  the key of the new alert afterwards; and the call returns as soon as the stream of
  candidates holds, from the current position on, one that no alert has.
\<close>

theorem new_id_unused_and_ids_distinct:
  "reachable s \<Longrightarrow>
     distinct (map alert_id (values_of (alertsMap s))) \<and>
     (\<forall>rnd k p c i k' s'. addAlertWithCondition rnd k p c s = Some (i, k', s') \<longrightarrow>
        i \<notin> set (map alert_id (values_of (alertsMap s))) \<and>
        map_of (alertsMap s') i = Some (newUserAlert i p c)) \<and>
     (\<forall>rnd k p c. (\<exists>j\<ge>k. toString16 (rnd j) \<notin> set (map alert_id (values_of (alertsMap s)))) \<longrightarrow>
        addAlertWithCondition rnd k p c s \<noteq> None)"
proof -
  assume r: "reachable s"
  then have wf: "wf_map (alertsMap s)" by (rule reachable_wf)
  then have ids: "map alert_id (values_of (alertsMap s)) = map fst (alertsMap s)"
    by (rule wf_map_ids)
  from wf have d: "distinct (map alert_id (values_of (alertsMap s)))"
    unfolding ids by (simp add: wf_map_def)
  have a: "i \<notin> set (map alert_id (values_of (alertsMap s))) \<and>
        map_of (alertsMap s') i = Some (newUserAlert i p c)"
    if "addAlertWithCondition rnd k p c s = Some (i, k', s')" for rnd k p c i k' s'
  proof -
    from that obtain r where g: "getNewId rnd k (alertsMap s) = Some r" and i: "i = fst r"
      and s': "alertsMap s' = AList.update i (newUserAlert i p c) (alertsMap s)"
      by (auto simp: addAlertWithCondition_def Let_def split: option.splits)
    from getNewId_result [OF g] i have "\<not> has (alertsMap s) i" by simp
    then show ?thesis unfolding ids s' by (simp add: has_keys update_conv')
  qed
  have t: "addAlertWithCondition rnd k p c s \<noteq> None"
    if "\<exists>j\<ge>k. toString16 (rnd j) \<notin> set (map alert_id (values_of (alertsMap s)))" for rnd k p c
  proof -
    from that obtain j where "k \<le> j" and "\<not> has (alertsMap s) (toString16 (rnd j))"
      unfolding ids has_keys by blast
    then have "\<not> has (alertsMap s) (toString16 (rnd (k + (j - k))))" by simp
    from getNewId_returns [where rnd = rnd and k = k and d = "j - k", OF this] show ?thesis
      by (auto simp: addAlertWithCondition_def Let_def split: option.splits)
  qed
  from d a t show ?thesis by blast
qed

theorem new_id_unused_and_ids_distinct_witness:
  "reachable (snd (importAlerts [Some (priceRecord ''7a120'' (Fin 5))] constructor)) \<and>
   distinct (map alert_id (values_of (alertsMap (snd (importAlerts [Some (priceRecord ''7a120'' (Fin 5))] constructor))))) \<and>
   (\<exists>s'. addAlertWithCondition (\<lambda>k. if k = 0 then 500000 else 11) 0 (Fin 10) Crossing
            (snd (importAlerts [Some (priceRecord ''7a120'' (Fin 5))] constructor)) = Some (''b'', 2, s') \<and>
         ''b'' \<notin> set (map alert_id (values_of (alertsMap (snd (importAlerts [Some (priceRecord ''7a120'' (Fin 5))] constructor))))) \<and>
         map_of (alertsMap s') ''b'' = Some (newUserAlert ''b'' (Fin 10) Crossing))"
proof -
  let ?s = "snd (importAlerts [Some (priceRecord ''7a120'' (Fin 5))] constructor)"
  let ?rnd = "\<lambda>k::nat. if k = 0 then 500000 else (11::nat)"
  have r: "reachable ?s"
    using reachable_import_objects [OF r_new, of "[priceRecord ''7a120'' (Fin 5)]"] by simp
  have g: "getNewId ?rnd 0 (alertsMap ?s) = Some (''b'', 2)"
    by (simp add: getNewId.simps alertsMap_import_one has_def toString16_500000 toString16_11)
  then obtain s' where a: "addAlertWithCondition ?rnd 0 (Fin 10) Crossing ?s = Some (''b'', 2, s')"
    by (simp add: addAlertWithCondition_def Let_def)
  from new_id_unused_and_ids_distinct [OF r] a r show ?thesis by blast
qed

text \<open>
  C9. For an id that is not in the store, \<open>removeAlert\<close>, \<open>updateAlertPrice\<close> and
  \<open>updateAlert\<close> return the state they were given: the map, the array and the log of
  fired events are all unchanged, so no event is fired.
\<close>

theorem absent_id_is_noop:
  "\<not> has (alertsMap s) i \<Longrightarrow>
     removeAlert i s = s \<and> updateAlertPrice i p s = s \<and> updateAlert i p c n s = s"
  by (simp add: removeAlert_def updateAlertPrice_def updateAlert_def has_def)

theorem absent_id_is_noop_witness:
  "\<not> has (alertsMap constructor) ''7a120'' \<and>
   removeAlert ''7a120'' constructor = constructor \<and>
   updateAlertPrice ''7a120'' (Fin 10) constructor = constructor \<and>
   updateAlert ''7a120'' (Fin 10) CrossingUp None constructor = constructor"
proof -
  have h: "\<not> has (alertsMap constructor) ''7a120''"
    by (simp add: constructor_def has_def)
  from absent_id_is_noop [OF h] h show ?thesis by blast
qed

text \<open>
  C10. The \<open>createdAt\<close> of the \<open>j\<close>-th exported record is the \<open>j\<close>-th reading of the
  clock taken during the export, whatever the alert (an alert has no creation time).
  So two exports of one store whose clock readings differ agree on no \<open>createdAt\<close>,
  and after export, import and a second export the \<open>createdAt\<close> values are the
  readings of the second export.
\<close>

theorem export_stamps_current_time:
  "map ser_createdAt (exportAlerts clock s) =
     map (\<lambda>j. Some (clock j)) [0..<length (exportAlerts clock s)] \<and>
   ((\<forall>j j'. clock j \<noteq> clock' j') \<longrightarrow>
      (\<forall>r \<in> set (exportAlerts clock s). \<forall>r' \<in> set (exportAlerts clock' s).
         ser_createdAt r \<noteq> ser_createdAt r')) \<and>
   map ser_createdAt (exportAlerts clock' (snd (importAlerts (map Some (exportAlerts clock s)) constructor))) =
     map (\<lambda>j. Some (clock' j))
       [0..<length (exportAlerts clock' (snd (importAlerts (map Some (exportAlerts clock s)) constructor)))]"
proof -
  have a: "map ser_createdAt (exportAlerts c t) =
     map (\<lambda>j. Some (c j)) [0..<length (exportAlerts c t)]" for c t
    using exportFrom_createdAt [of c 0 "alertsMap t"] by (simp add: exportAlerts_def)
  have m: "\<exists>j. ser_createdAt r = Some (c j)" if "r \<in> set (exportAlerts c t)" for r c t
  proof -
    from that have "ser_createdAt r \<in> set (map ser_createdAt (exportAlerts c t))" by simp
    then show ?thesis unfolding a by auto
  qed
  have b: "ser_createdAt r \<noteq> ser_createdAt r'"
    if "\<forall>j j'. clock j \<noteq> clock' j'" "r \<in> set (exportAlerts clock s)"
       "r' \<in> set (exportAlerts clock' s)" for r r'
    using m [OF that(2)] m [OF that(3)] that(1) by (metis option.inject)
  from a b show ?thesis by blast
qed

theorem export_stamps_current_time_witness:
  "(\<forall>j j'. (\<lambda>k::nat. 1000::int) j \<noteq> (\<lambda>k::nat. 2000::int) j') \<and>
   map ser_createdAt (exportAlerts (\<lambda>k. 1000) sampleStore) = [Some 1000] \<and>
   map ser_createdAt (exportAlerts (\<lambda>k. 2000) sampleStore) = [Some 2000] \<and>
   set (map ser_createdAt (exportAlerts (\<lambda>k. 1000) sampleStore)) \<inter>
     set (map ser_createdAt (exportAlerts (\<lambda>k. 2000) sampleStore)) = {} \<and>
   map ser_createdAt
     (exportAlerts (\<lambda>k. 2000)
        (snd (importAlerts (map Some (exportAlerts (\<lambda>k. 1000) sampleStore)) constructor))) =
     [Some 2000]"
proof -
  have h: "\<forall>j j'. (\<lambda>k::nat. 1000::int) j \<noteq> (\<lambda>k::nat. 2000::int) j'"
    by simp
  have e1: "length (exportAlerts c sampleStore) = 1" for c
    by (simp add: exportAlerts_def sampleStore_def)
  have e2: "length (exportAlerts c' (snd (importAlerts (map Some (exportAlerts c sampleStore)) constructor))) = 1" for c c'
    by (simp add: exportAlerts_def sampleStore_def importAlerts_def Let_def constructor_def
        skipped_def serialized_def userAlertOf_def)
  from export_stamps_current_time [of "\<lambda>k. 1000" sampleStore "\<lambda>k. 2000"]
       export_stamps_current_time [of "\<lambda>k. 2000" sampleStore "\<lambda>k. 1000"] h
  show ?thesis by (simp add: e1 e2)
qed

section \<open>Properties of the trigger evaluator\<close>

text \<open>
  C2. The first evaluation of a newly created alert emits no trigger, whatever the
  observed price, the threshold and the condition, hence also when the price is already
  on the triggering side; it records the position of the price as
  \<open>initialPricePosition\<close> and as the last known position.
\<close>

theorem first_evaluation_emits_no_trigger:
  "snd (evaluateScalar tie observed (created a)) = False \<and>
   initialPricePosition (info (fst (evaluateScalar tie observed (created a)))) =
     Some (positionOf tie observed (price a)) \<and>
   lastPosition (fst (evaluateScalar tie observed (created a))) =
     Some (positionOf tie observed (price a))"
  by (simp add: evaluateScalar_def created_def Let_def)

text \<open>The evaluator does trigger later: a \<open>crossing_up\<close> alert seen below, then above.\<close>

lemma later_crossing_triggers:
  "evaluateScalar tie (Fin 110)
     (fst (evaluateScalar tie (Fin 90) (created (newUserAlert ''b'' (Fin 100) CrossingUp)))) =
   (\<lparr>info = (newUserAlert ''b'' (Fin 100) CrossingUp)\<lparr>initialPricePosition := Some Unknown\<rparr>,
     lastPosition = Some Above\<rparr>, True)"
  by (simp add: evaluateScalar_def created_def Let_def positionOf_def newUserAlert_def
      orCrossing_def numGreater_def)

section \<open>Properties of the notification dispatcher\<close>

lemmas dispatcher_defs =
  showNotification_def showToastChannel_def dismiss_def setTimeout_def clearTimeout_def
  playAlarm_def sendWebhook_def elapse_def fireTimer_def runCallback_def
  newAlertNotification_def sampleData_def Let_def showWebhookResultToast_def
  destroyNotification_def

lemma shownOnce_eq:
  "shownOnce = newAlertNotification
     \<lparr>containerChildren := [0], notificationsMap := [(''a1'', 0)],
      dismissTimeouts := [(''a1'', 1)], timers := [(1, 60000, AutoDismiss ''a1'')],
      nextNode := 1, nextTimer := 2, alarmsPlayed := 1\<rparr>"
  by (simp add: shownOnce_def dispatcher_defs)

lemma shownTwice_eq:
  "shownTwice = newAlertNotification
     \<lparr>containerChildren := [0, 1], dismissingClass := [0], notificationsMap := [(''a1'', 1)],
      dismissTimeouts := [(''a1'', 3)],
      timers := [(2, 1300, RemoveNotification ''a1'' 0), (3, 61000, AutoDismiss ''a1'')],
      now := 1000, nextNode := 2, nextTimer := 4, alarmsPlayed := 2\<rparr>"
  by (simp add: shownTwice_def shownOnce_eq dispatcher_defs)

lemma afterAnimation_eq:
  "afterAnimation = newAlertNotification
     \<lparr>containerChildren := [1], dismissingClass := [0], notificationsMap := [],
      dismissTimeouts := [(''a1'', 3)],
      timers := [(3, 61000, AutoDismiss ''a1'')],
      now := 1300, nextNode := 2, nextTimer := 4, alarmsPlayed := 2\<rparr>"
  by (simp add: afterAnimation_def shownTwice_eq dispatcher_defs)

text \<open>
  C7. Right after the second \<open>show\<close> the map tracks the new toast (element 1). The
  removal callback that \<open>dismiss\<close> scheduled for the old toast deletes the map entry by
  key, 300 ms later, and by then the entry is the one of the new toast. From then on
  the map no longer tracks the new toast: a manual dismiss cancels its auto-dismiss
  timer and removes nothing, and the new toast stays in the container with no timer
  left to remove it.
\<close>

theorem replaced_toast_is_lost:
  "map_of (notificationsMap shownTwice) ''a1'' = Some 1 \<and>
   containerChildren shownTwice = [0, 1] \<and>
   notificationsMap afterAnimation = [] \<and>
   containerChildren afterAnimation = [1] \<and>
   containerChildren afterManualDismiss = [1] \<and>
   notificationsMap afterManualDismiss = [] \<and>
   timers afterManualDismiss = []"
  by (simp add: afterManualDismiss_def afterAnimation_eq shownTwice_eq dispatcher_defs)

lemma beforeDestroy_eq:
  "beforeDestroy = newAlertNotification
     \<lparr>containerChildren := [0, 1], notificationsMap := [(''a1'', 0), (''a2'', 1)],
      dismissTimeouts := [(''a1'', 1), (''a2'', 2)], resultToasts := [(2, 3)],
      timers := [(1, 60000, AutoDismiss ''a1''), (2, 60000, AutoDismiss ''a2''),
                 (3, 60000, FadeResultToast 2)],
      nextNode := 3, nextTimer := 4, alarmsPlayed := 2\<rparr>"
  by (simp add: beforeDestroy_def dispatcher_defs)

lemma destroyed_eq:
  "destroyed = newAlertNotification
     \<lparr>container := False, containerInBody := False, containerChildren := [0, 1],
      dismissingClass := [0, 1], notificationsMap := [(''a1'', 0), (''a2'', 1)],
      dismissTimeouts := [], manager := False, resultToasts := [(2, 3)],
      timers := [(3, 60000, FadeResultToast 2), (4, 300, RemoveNotification ''a1'' 0),
                 (5, 300, RemoveNotification ''a2'' 1)],
      nextNode := 3, nextTimer := 6, alarmsPlayed := 2\<rparr>"
  by (simp add: destroyed_def beforeDestroy_eq dispatcher_defs)

text \<open>
  C8. After \<open>destroy\<close> on a dispatcher with two live notifications and one pending
  webhook result toast, three timers are still pending: the timer of the result toast,
  which no map tracks, and one removal timer for each notification, which \<open>destroy\<close>
  itself schedules through \<open>dismiss\<close>. The notifications are still in the map and the
  result toast is still in the document, and the timers fire afterwards.
\<close>

theorem destroy_leaves_timers_pending:
  "timers destroyed =
     [(3, 60000, FadeResultToast 2), (4, 300, RemoveNotification ''a1'' 0),
      (5, 300, RemoveNotification ''a2'' 1)] \<and>
   notificationsMap destroyed = [(''a1'', 0), (''a2'', 1)] \<and>
   resultToasts destroyed = [(2, 3)] \<and>
   containerChildren (fireTimer 4 (elapse 300 destroyed)) = [1] \<and>
   timers (fireTimer 3 (elapse 60000 destroyed)) =
     [(4, 300, RemoveNotification ''a1'' 0), (5, 300, RemoveNotification ''a2'' 1),
      (6, 60300, RemoveResultToast 2)]"
  by (simp add: destroyed_eq dispatcher_defs)

end
